theory Spec2Isabelle
  imports Main
begin

section \<open>The navigation panel of App.vue\<close>

text \<open>
  The component under study is the root layout \<^verbatim>\<open>App.vue\<close>: a side navigation whose
  open flag is saved in \<^verbatim>\<open>localStorage\<close>, and three collapsible link sections that
  follow the current route. Its script is modelled function by function, with the state
  the script closes over passed explicitly.
\<close>

subsection \<open>Data\<close>

text \<open>
  The keys of the reactive object \<^verbatim>\<open>sections\<close>. The template calls
  \<^verbatim>\<open>toggleSection\<close> with the three literals \<^verbatim>\<open>'demos'\<close>,
  \<^verbatim>\<open>'practiceGuided'\<close>, \<^verbatim>\<open>'practiceMinimal'\<close> only, and
  \<^verbatim>\<open>getSectionForRoute\<close> returns one of them or \<^verbatim>\<open>null\<close>.
\<close>

datatype section_id = Demos | PracticeGuided | PracticeMinimal

text \<open>\<^verbatim>\<open>const sections = reactive({ demos: false, practiceGuided: false, practiceMinimal: false })\<close>\<close>

record sections_obj =
  demos :: bool
  practiceGuided :: bool
  practiceMinimal :: bool

text \<open>The read \<^verbatim>\<open>sections[s]\<close> and the assignment \<^verbatim>\<open>sections[s] = v\<close>.\<close>

fun section_get :: "sections_obj \<Rightarrow> section_id \<Rightarrow> bool" where
  "section_get secs Demos = demos secs"
| "section_get secs PracticeGuided = practiceGuided secs"
| "section_get secs PracticeMinimal = practiceMinimal secs"

fun section_set :: "section_id \<Rightarrow> bool \<Rightarrow> sections_obj \<Rightarrow> sections_obj" where
  "section_set Demos v secs = secs\<lparr>demos := v\<rparr>"
| "section_set PracticeGuided v secs = secs\<lparr>practiceGuided := v\<rparr>"
| "section_set PracticeMinimal v secs = secs\<lparr>practiceMinimal := v\<rparr>"

text \<open>
  The browser's \<^verbatim>\<open>localStorage\<close>: the stored items, and the calls of
  \<^verbatim>\<open>setItem\<close> made so far, oldest first. The second field is a trace: it lets
  a statement tell a write of the value already stored from no write at all.
\<close>

record storage =
  items :: "string \<rightharpoonup> string"
  setItem_calls :: "(string \<times> string) list"

text \<open>\<^verbatim>\<open>getItem\<close> returns \<^verbatim>\<open>null\<close> (here \<open>None\<close>) for a missing key.\<close>

definition getItem :: "string \<Rightarrow> storage \<Rightarrow> string option" where
  "getItem k store = items store k"

definition setItem :: "string \<Rightarrow> string \<Rightarrow> storage \<Rightarrow> storage" where
  "setItem k v store =
     store\<lparr>items := (items store)(k \<mapsto> v), setItem_calls := setItem_calls store @ [(k, v)]\<rparr>"

text \<open>
  What the script closes over: the ref \<^verbatim>\<open>isSidenavOpen\<close>, the reactive object
  \<^verbatim>\<open>sections\<close>, the router's \<^verbatim>\<open>route.path\<close> and the storage.
  The field \<open>isSidenavOpen_seen\<close> belongs to the watcher that
  \<^verbatim>\<open>watch(isSidenavOpen, ...)\<close> registers: the value of the ref the watcher saw
  last (its \<^verbatim>\<open>oldValue\<close>).
\<close>

record app =
  isSidenavOpen :: bool
  isSidenavOpen_seen :: bool
  sections :: sections_obj
  route_path :: string
  localStorage :: storage

definition SIDENAV_OPEN_KEY :: string where
  "SIDENAV_OPEN_KEY = ''demo.sidenavOpen''"

subsection \<open>Helpers of the language\<close>

text \<open>
  \<^verbatim>\<open>s.startsWith(p)\<close>: the first \<open>length p\<close> characters of \<open>s\<close> are \<open>p\<close>
  (false when \<open>s\<close> is shorter than \<open>p\<close>).
\<close>

definition startsWith :: "string \<Rightarrow> string \<Rightarrow> bool" where
  "startsWith s p = (take (length p) s = p)"

text \<open>\<^verbatim>\<open>String(b)\<close> of a boolean.\<close>

definition String_of_bool :: "bool \<Rightarrow> string" where
  "String_of_bool b = (if b then ''true'' else ''false'')"

subsection \<open>The functions of the script\<close>

text \<open>
  \<^verbatim>\<open>
  function getSectionForRoute(path) {
    if (path.startsWith('/practice/guided')) return 'practiceGuided'
    if (path.startsWith('/practice/minimal')) return 'practiceMinimal'
    if (path === '/theme' || path === '/display-name' ||
        path === '/session-vs-local' || path === '/devtools') {
      return 'demos'
    }
    return null
  }
  \<close>
\<close>

definition getSectionForRoute :: "string \<Rightarrow> section_id option" where
  "getSectionForRoute path =
     (if startsWith path ''/practice/guided'' then Some PracticeGuided
      else if startsWith path ''/practice/minimal'' then Some PracticeMinimal
      else if path = ''/theme'' \<or> path = ''/display-name'' \<or>
              path = ''/session-vs-local'' \<or> path = ''/devtools''
        then Some Demos
      else None)"

text \<open>\<^verbatim>\<open>const activeSection = computed(() => getSectionForRoute(route.path))\<close>\<close>

definition activeSection :: "app \<Rightarrow> section_id option" where
  "activeSection st = getSectionForRoute (route_path st)"

text \<open>
  The callback of \<^verbatim>\<open>watch(() => route.path, (newPath, oldPath) => ...)\<close>.
  \<^verbatim>\<open>oldPath\<close> is \<^verbatim>\<open>undefined\<close> (here \<open>None\<close>) on the immediate run;
  the test \<^verbatim>\<open>oldPath ? ... : null\<close> is also false for the empty string.
  \<^verbatim>\<open>
    const newSection = getSectionForRoute(newPath)
    const oldSection = oldPath ? getSectionForRoute(oldPath) : null
    if (oldSection && oldSection !== newSection) { sections[oldSection] = false }
    if (newSection) { sections[newSection] = true }
  \<close>
\<close>

definition route_path_watcher :: "string \<Rightarrow> string option \<Rightarrow> sections_obj \<Rightarrow> sections_obj" where
  "route_path_watcher newPath oldPath secs =
     (let newSection = getSectionForRoute newPath;
          oldSection = (case oldPath of
                          None \<Rightarrow> None
                        | Some p \<Rightarrow> if p = [] then None else getSectionForRoute p);
          secs1 = (case oldSection of
                     None \<Rightarrow> secs
                   | Some os \<Rightarrow> if oldSection = newSection then secs
                               else section_set os False secs)
      in case newSection of
           None \<Rightarrow> secs1
         | Some ns \<Rightarrow> section_set ns True secs1)"

text \<open>
  A navigation from \<open>oldPath\<close> to \<open>newPath\<close>: the router updates \<^verbatim>\<open>route.path\<close>
  and the watcher runs with both paths.
\<close>

definition onRouteChange :: "string \<Rightarrow> string \<Rightarrow> app \<Rightarrow> app" where
  "onRouteChange oldPath newPath st =
     st\<lparr>route_path := newPath,
        sections := route_path_watcher newPath (Some oldPath) (sections st)\<rparr>"

text \<open>
  The callback of \<^verbatim>\<open>watch(isSidenavOpen, (open) => { localStorage.setItem(SIDENAV_OPEN_KEY, String(open)) })\<close>.
\<close>

definition isSidenavOpen_watcher :: "bool \<Rightarrow> app \<Rightarrow> app" where
  "isSidenavOpen_watcher opn st =
     st\<lparr>localStorage := setItem SIDENAV_OPEN_KEY (String_of_bool opn) (localStorage st)\<rparr>"

text \<open>
  The watcher is registered with no \<^verbatim>\<open>flush\<close> option, so an assignment to the
  ref does not run the callback: the watcher's job waits for the scheduler's next flush,
  which comes after the running event handler or hook has returned. The job reads the
  ref, and runs the callback with the value read only if it differs from the value the
  watcher saw last; then that becomes the value seen last.
\<close>

definition flush :: "app \<Rightarrow> app" where
  "flush st =
     (if isSidenavOpen st = isSidenavOpen_seen st then st
      else (isSidenavOpen_watcher (isSidenavOpen st) st)
             \<lparr>isSidenavOpen_seen := isSidenavOpen st\<rparr>)"

text \<open>\<^verbatim>\<open>function toggleSidenav() { isSidenavOpen.value = !isSidenavOpen.value }\<close>\<close>

definition toggleSidenav :: "app \<Rightarrow> app" where
  "toggleSidenav st = st\<lparr>isSidenavOpen := \<not> isSidenavOpen st\<rparr>"

text \<open>
  \<^verbatim>\<open>
  function toggleSection(section) {
    if (section === activeSection.value) { return }
    sections[section] = !sections[section]
  }
  \<close>
\<close>

definition toggleSection :: "section_id \<Rightarrow> app \<Rightarrow> app" where
  "toggleSection s st =
     (if Some s = activeSection st then st
      else st\<lparr>sections := section_set s (\<not> section_get (sections st) s) (sections st)\<rparr>)"

text \<open>
  \<^verbatim>\<open>
  onMounted(() => {
    const savedSidenav = localStorage.getItem(SIDENAV_OPEN_KEY)
    if (savedSidenav !== null) { isSidenavOpen.value = savedSidenav === 'true' }
  })
  \<close>
\<close>

definition onMounted :: "app \<Rightarrow> app" where
  "onMounted st =
     (case getItem SIDENAV_OPEN_KEY (localStorage st) of
        None \<Rightarrow> st
      | Some savedSidenav \<Rightarrow> st\<lparr>isSidenavOpen := (savedSidenav = ''true'')\<rparr>)"

text \<open>
  Running the script for a storage and a current path: \<^verbatim>\<open>ref(true)\<close>, the three
  flags \<^verbatim>\<open>false\<close>, the route watcher once at once
  (\<^verbatim>\<open>{ immediate: true }\<close>), with no old path, and the watcher of the ref,
  which reads the ref when it is registered and so has seen \<^verbatim>\<open>true\<close>.
\<close>

definition script_setup :: "storage \<Rightarrow> string \<Rightarrow> app" where
  "script_setup store path =
     \<lparr>isSidenavOpen = True,
      isSidenavOpen_seen = True,
      sections = route_path_watcher path None
                   \<lparr>demos = False, practiceGuided = False, practiceMinimal = False\<rparr>,
      route_path = path,
      localStorage = store\<rparr>"

text \<open>
  Start-up as a whole: the script, then the mounted hook, then the flush that follows the
  hook, before any event is handled.
\<close>

definition initialize :: "storage \<Rightarrow> string \<Rightarrow> app" where
  "initialize store path = flush (onMounted (script_setup store path))"

subsection \<open>Runs\<close>

text \<open>
  What can happen after start-up: a navigation, a click on a section button, a click on
  the menu button, a flush of the scheduler. A navigation carries both paths; the old
  path is not required to be the current one, and a flush is not required to follow each
  click, so the runs below include every run of the application.
\<close>

datatype event = RouteChange string string | ToggleGroup section_id | TogglePanel | Flush

fun step :: "app \<Rightarrow> event \<Rightarrow> app" where
  "step st (RouteChange oldPath newPath) = onRouteChange oldPath newPath st"
| "step st (ToggleGroup s) = toggleSection s st"
| "step st TogglePanel = toggleSidenav st"
| "step st Flush = flush st"

fun run :: "app \<Rightarrow> event list \<Rightarrow> app" where
  "run st [] = st"
| "run st (e # es) = run (step st e) es"

text \<open>The section of the current route, if there is one, is open.\<close>

definition active_open :: "app \<Rightarrow> bool" where
  "active_open st =
     (case activeSection st of None \<Rightarrow> True | Some s \<Rightarrow> section_get (sections st) s)"

text \<open>A storage holding the listed items, with no call of \<^verbatim>\<open>setItem\<close> made yet.\<close>

definition store_of :: "(string \<times> string) list \<Rightarrow> storage" where
  "store_of kvs = \<lparr>items = map_of kvs, setItem_calls = []\<rparr>"

section \<open>Basic facts\<close>

lemma startsWith_iff: "startsWith s p \<longleftrightarrow> (\<exists>r. s = p @ r)"
  unfolding startsWith_def
proof
  assume "take (length p) s = p"
  then have "s = p @ drop (length p) s"
    by (metis append_take_drop_id)
  then show "\<exists>r. s = p @ r" ..
next
  assume "\<exists>r. s = p @ r"
  then show "take (length p) s = p" by auto
qed

lemma section_get_set:
  "section_get (section_set s v secs) t = (if t = s then v else section_get secs t)"
  by (cases s; cases t) simp_all

lemma section_set_same: "section_get secs s = v \<Longrightarrow> section_set s v secs = secs"
  by (cases s) auto

lemma getSectionForRoute_Nil: "getSectionForRoute [] = None"
  by (simp add: getSectionForRoute_def startsWith_def)

lemma route_path_watcher_get:
  "section_get (route_path_watcher newPath (Some oldPath) secs) g =
     (if getSectionForRoute newPath = Some g then True
      else if getSectionForRoute oldPath = Some g then False
      else section_get secs g)"
  by (cases "oldPath = []")
     (auto simp: route_path_watcher_def Let_def section_get_set getSectionForRoute_Nil
           split: option.splits)

lemma route_path_watcher_None:
  "route_path_watcher newPath None secs =
     (case getSectionForRoute newPath of None \<Rightarrow> secs | Some ns \<Rightarrow> section_set ns True secs)"
  by (simp add: route_path_watcher_def)

lemma active_open_onRouteChange: "active_open (onRouteChange oldPath newPath st)"
  by (simp add: active_open_def activeSection_def onRouteChange_def route_path_watcher_get
           split: option.splits)

lemma active_open_toggleSection: "active_open st \<Longrightarrow> active_open (toggleSection s st)"
  by (auto simp: active_open_def activeSection_def toggleSection_def section_get_set
           split: option.splits)

lemma sections_toggleSidenav: "sections (toggleSidenav st) = sections st"
  by (simp add: toggleSidenav_def)

lemma route_path_toggleSidenav: "route_path (toggleSidenav st) = route_path st"
  by (simp add: toggleSidenav_def)

lemma sections_flush: "sections (flush st) = sections st"
  by (simp add: flush_def isSidenavOpen_watcher_def)

lemma route_path_flush: "route_path (flush st) = route_path st"
  by (simp add: flush_def isSidenavOpen_watcher_def)

lemma isSidenavOpen_flush: "isSidenavOpen (flush st) = isSidenavOpen st"
  by (simp add: flush_def isSidenavOpen_watcher_def)

lemma isSidenavOpen_seen_flush: "isSidenavOpen_seen (flush st) = isSidenavOpen st"
  by (simp add: flush_def isSidenavOpen_watcher_def)

lemma localStorage_flush:
  "localStorage (flush st) =
     (if isSidenavOpen st = isSidenavOpen_seen st then localStorage st
      else setItem SIDENAV_OPEN_KEY (String_of_bool (isSidenavOpen st)) (localStorage st))"
  by (simp add: flush_def isSidenavOpen_watcher_def)

lemma active_open_flush: "active_open st \<Longrightarrow> active_open (flush st)"
  by (simp add: active_open_def activeSection_def sections_flush route_path_flush
           split: option.splits)

lemma active_open_toggleSidenav: "active_open st \<Longrightarrow> active_open (toggleSidenav st)"
  by (simp add: active_open_def activeSection_def sections_toggleSidenav route_path_toggleSidenav
           split: option.splits)

lemma active_open_step: "active_open st \<Longrightarrow> active_open (step st e)"
  by (cases e)
     (simp_all add: active_open_onRouteChange active_open_toggleSection
        active_open_toggleSidenav active_open_flush)

lemma active_open_run: "active_open st \<Longrightarrow> active_open (run st es)"
  by (induction es arbitrary: st) (simp_all add: active_open_step)

lemma sections_onMounted: "sections (onMounted st) = sections st"
  by (simp add: onMounted_def split: option.splits)

lemma route_path_onMounted: "route_path (onMounted st) = route_path st"
  by (simp add: onMounted_def split: option.splits)

lemma localStorage_onMounted: "localStorage (onMounted st) = localStorage st"
  by (simp add: onMounted_def split: option.splits)

lemma isSidenavOpen_seen_onMounted: "isSidenavOpen_seen (onMounted st) = isSidenavOpen_seen st"
  by (simp add: onMounted_def split: option.splits)

lemma section_get_closed:
  "section_get \<lparr>demos = False, practiceGuided = False, practiceMinimal = False\<rparr> g = False"
  by (cases g) simp_all

lemma sections_initialize:
  "section_get (sections (initialize store path)) g = (getSectionForRoute path = Some g)"
  by (auto simp: initialize_def sections_flush sections_onMounted script_setup_def
                    route_path_watcher_None
                    section_get_set section_get_closed split: option.splits)

lemma active_open_initialize: "active_open (initialize store path)"
proof -
  have "route_path (initialize store path) = path"
    by (simp add: initialize_def route_path_flush route_path_onMounted script_setup_def)
  then show ?thesis
    by (simp add: active_open_def activeSection_def sections_initialize split: option.splits)
qed

lemmas app_defs =
  initialize_def script_setup_def onMounted_def getItem_def setItem_def store_of_def
  route_path_watcher_def getSectionForRoute_def startsWith_def SIDENAV_OPEN_KEY_def
  onRouteChange_def toggleSection_def toggleSidenav_def flush_def
  isSidenavOpen_watcher_def activeSection_def String_of_bool_def

lemma funpow_fixed: "f x = x \<Longrightarrow> (f ^^ n) x = x"
  by (induction n) simp_all

lemma isSidenavOpen_toggleSidenav: "isSidenavOpen (toggleSidenav st) = (\<not> isSidenavOpen st)"
  by (simp add: toggleSidenav_def)

lemma isSidenavOpen_seen_toggleSidenav:
  "isSidenavOpen_seen (toggleSidenav st) = isSidenavOpen_seen st"
  by (simp add: toggleSidenav_def)

lemma localStorage_toggleSidenav: "localStorage (toggleSidenav st) = localStorage st"
  by (simp add: toggleSidenav_def)

lemma toggleSidenav_twice: "toggleSidenav (toggleSidenav st) = st"
  by (simp add: toggleSidenav_def)

lemma getItem_setItem: "getItem k (setItem k v store) = Some v"
  by (simp add: getItem_def setItem_def)

lemma isSidenavOpen_onMounted:
  "isSidenavOpen (onMounted st) =
     (case getItem SIDENAV_OPEN_KEY (localStorage st) of
        None \<Rightarrow> isSidenavOpen st
      | Some v \<Rightarrow> v = ''true'')"
  by (simp add: onMounted_def split: option.splits)

lemma isSidenavOpen_initialize:
  "isSidenavOpen (initialize store path) =
     (case getItem SIDENAV_OPEN_KEY store of None \<Rightarrow> True | Some v \<Rightarrow> v = ''true'')"
  by (simp add: initialize_def isSidenavOpen_flush isSidenavOpen_onMounted script_setup_def
        split: option.splits)

lemma localStorage_initialize:
  "localStorage (initialize store path) =
     (case getItem SIDENAV_OPEN_KEY store of
        None \<Rightarrow> store
      | Some v \<Rightarrow> if v = ''true'' then store else setItem SIDENAV_OPEN_KEY ''false'' store)"
  by (simp add: initialize_def localStorage_flush isSidenavOpen_onMounted
        isSidenavOpen_seen_onMounted localStorage_onMounted script_setup_def String_of_bool_def
        split: option.splits)

lemma route_path_watcher_same:
  assumes "getSectionForRoute oldPath = getSectionForRoute newPath"
    and "case getSectionForRoute oldPath of None \<Rightarrow> True | Some s \<Rightarrow> section_get secs s"
  shows "route_path_watcher newPath (Some oldPath) secs = secs"
proof (cases "getSectionForRoute newPath")
  case None
  with assms show ?thesis
    by (simp add: route_path_watcher_def)
next
  case (Some ns)
  with assms have "section_get secs ns = True" by simp
  then have "section_set ns True secs = secs" by (rule section_set_same)
  with Some assms(1) show ?thesis
    by (simp add: route_path_watcher_def)
qed

section \<open>The active section stays open\<close>

text \<open>
  Claim C1. After start-up and any sequence of navigations, section clicks, menu clicks
  and flushes, the section that contains the current route, if there is one, has its flag
  true. In particular this holds right after any navigation, whatever the two paths and
  whatever the flags were before.
\<close>

theorem active_section_open:
  "active_open (run (initialize store path) es) \<and>
   active_open (onRouteChange oldPath newPath st)"
  by (simp add: active_open_run active_open_initialize active_open_onRouteChange)

theorem active_section_open_witness:
  "activeSection (run (initialize (store_of []) ''/'')
      [RouteChange ''/'' ''/practice/guided/theme'', ToggleGroup Demos, TogglePanel,
       ToggleGroup PracticeGuided]) = Some PracticeGuided \<and>
   section_get (sections (run (initialize (store_of []) ''/'')
      [RouteChange ''/'' ''/practice/guided/theme'', ToggleGroup Demos, TogglePanel,
       ToggleGroup PracticeGuided])) PracticeGuided"
proof -
  let ?es = "[RouteChange ''/'' ''/practice/guided/theme'', ToggleGroup Demos, TogglePanel,
       ToggleGroup PracticeGuided]"
  let ?S = "run (initialize (store_of []) ''/'') ?es"
  have act: "activeSection ?S = Some PracticeGuided"
    by (simp add: app_defs)
  from active_section_open [of "store_of []" "''/''" ?es]
  have "active_open ?S" by (rule conjunct1)
  with act show ?thesis by (simp add: active_open_def)
qed

section \<open>Classifying a route\<close>

text \<open>
  Claim C2. \<open>getSectionForRoute\<close> is a total function of the path with four outcomes,
  decided in this order: a path that starts with \<^verbatim>\<open>/practice/guided\<close> is in the
  guided section; otherwise one that starts with \<^verbatim>\<open>/practice/minimal\<close> is in the
  minimal section; otherwise one of the four demo paths is in the demos section;
  every other path, the home path included, is in none.
\<close>

theorem getSectionForRoute_total:
  "getSectionForRoute p =
     (if \<exists>r. p = ''/practice/guided'' @ r then Some PracticeGuided
      else if \<exists>r. p = ''/practice/minimal'' @ r then Some PracticeMinimal
      else if p \<in> {''/theme'', ''/display-name'', ''/session-vs-local'', ''/devtools''}
        then Some Demos
      else None) \<and>
   getSectionForRoute (''/practice/guided'' @ r1) = Some PracticeGuided \<and>
   getSectionForRoute (''/practice/minimal'' @ r2) = Some PracticeMinimal \<and>
   getSectionForRoute ''/theme'' = Some Demos \<and>
   getSectionForRoute ''/display-name'' = Some Demos \<and>
   getSectionForRoute ''/session-vs-local'' = Some Demos \<and>
   getSectionForRoute ''/devtools'' = Some Demos \<and>
   getSectionForRoute ''/'' = None"
proof -
  have gen: "getSectionForRoute p =
     (if \<exists>r. p = ''/practice/guided'' @ r then Some PracticeGuided
      else if \<exists>r. p = ''/practice/minimal'' @ r then Some PracticeMinimal
      else if p \<in> {''/theme'', ''/display-name'', ''/session-vs-local'', ''/devtools''}
        then Some Demos
      else None)"
    unfolding getSectionForRoute_def startsWith_iff by simp
  have g: "getSectionForRoute (''/practice/guided'' @ r1) = Some PracticeGuided"
    unfolding getSectionForRoute_def startsWith_iff by simp
  have m: "getSectionForRoute (''/practice/minimal'' @ r2) = Some PracticeMinimal"
    unfolding getSectionForRoute_def startsWith_def by simp
  have d: "getSectionForRoute ''/theme'' = Some Demos"
    "getSectionForRoute ''/display-name'' = Some Demos"
    "getSectionForRoute ''/session-vs-local'' = Some Demos"
    "getSectionForRoute ''/devtools'' = Some Demos"
    "getSectionForRoute ''/'' = None"
    by (simp_all add: getSectionForRoute_def startsWith_def)
  from gen g m d show ?thesis by simp
qed

theorem getSectionForRoute_total_witness:
  "getSectionForRoute ''/practice/guided/theme'' = Some PracticeGuided \<and>
   getSectionForRoute ''/practice/guidedness'' = Some PracticeGuided \<and>
   getSectionForRoute ''/practice/minimal/display-name'' = Some PracticeMinimal \<and>
   getSectionForRoute ''/devtools'' = Some Demos \<and>
   getSectionForRoute ''/theme/'' = None \<and>
   getSectionForRoute ''/practice'' = None \<and>
   getSectionForRoute [] = None"
  using getSectionForRoute_total [of "''/practice/guided/theme''"]
    getSectionForRoute_total [of "''/practice/guidedness''"]
    getSectionForRoute_total [of "''/practice/minimal/display-name''"]
    getSectionForRoute_total [of "''/theme/''"]
    getSectionForRoute_total [of "''/practice''"]
    getSectionForRoute_total [of "[]"]
  by simp

section \<open>Navigation\<close>

text \<open>
  Claim C3. After a navigation the flag of the new path's section, if any, is true; the
  flag of the old path's section is false exactly if that section exists and is not the
  new one; each other flag is as before. From the home page with all flags false, going
  to \<^verbatim>\<open>/practice/guided/theme\<close> opens the guided section only, and going on to
  \<^verbatim>\<open>/theme\<close> closes it and opens the demos section.
\<close>

theorem onRouteChange_sections:
  "section_get (sections (onRouteChange oldPath newPath st)) g =
     (if getSectionForRoute newPath = Some g then True
      else if getSectionForRoute oldPath = Some g then False
      else section_get (sections st) g) \<and>
   sections (initialize store ''/'') =
     \<lparr>demos = False, practiceGuided = False, practiceMinimal = False\<rparr> \<and>
   sections (onRouteChange ''/'' ''/practice/guided/theme'' (initialize store ''/'')) =
     \<lparr>demos = False, practiceGuided = True, practiceMinimal = False\<rparr> \<and>
   sections (onRouteChange ''/practice/guided/theme'' ''/theme''
      (onRouteChange ''/'' ''/practice/guided/theme'' (initialize store ''/''))) =
     \<lparr>demos = True, practiceGuided = False, practiceMinimal = False\<rparr>"
proof -
  have gen: "section_get (sections (onRouteChange oldPath newPath st)) g =
     (if getSectionForRoute newPath = Some g then True
      else if getSectionForRoute oldPath = Some g then False
      else section_get (sections st) g)"
    by (simp add: onRouteChange_def route_path_watcher_get)
  have s0: "sections (initialize store ''/'') =
     \<lparr>demos = False, practiceGuided = False, practiceMinimal = False\<rparr>"
    by (simp add: initialize_def sections_flush sections_onMounted script_setup_def
          route_path_watcher_def
          getSectionForRoute_def startsWith_def)
  have s1: "sections (onRouteChange ''/'' ''/practice/guided/theme'' (initialize store ''/'')) =
     \<lparr>demos = False, practiceGuided = True, practiceMinimal = False\<rparr>"
    by (simp add: onRouteChange_def s0 route_path_watcher_def
          getSectionForRoute_def startsWith_def)
  have s2: "sections (onRouteChange ''/practice/guided/theme'' ''/theme''
      (onRouteChange ''/'' ''/practice/guided/theme'' (initialize store ''/''))) =
     \<lparr>demos = True, practiceGuided = False, practiceMinimal = False\<rparr>"
    by (simp add: onRouteChange_def [of "''/practice/guided/theme''"] s1 route_path_watcher_def
          getSectionForRoute_def startsWith_def)
  from gen s0 s1 s2 show ?thesis by simp
qed

theorem onRouteChange_sections_witness:
  "section_get (sections (onRouteChange ''/practice/minimal/theme'' ''/display-name''
      \<lparr>isSidenavOpen = False, isSidenavOpen_seen = False,
       sections = \<lparr>demos = False, practiceGuided = True, practiceMinimal = True\<rparr>,
       route_path = ''/practice/minimal/theme'', localStorage = store_of []\<rparr>)) Demos = True \<and>
   section_get (sections (onRouteChange ''/practice/minimal/theme'' ''/display-name''
      \<lparr>isSidenavOpen = False, isSidenavOpen_seen = False,
       sections = \<lparr>demos = False, practiceGuided = True, practiceMinimal = True\<rparr>,
       route_path = ''/practice/minimal/theme'', localStorage = store_of []\<rparr>)) PracticeMinimal = False \<and>
   section_get (sections (onRouteChange ''/practice/minimal/theme'' ''/display-name''
      \<lparr>isSidenavOpen = False, isSidenavOpen_seen = False,
       sections = \<lparr>demos = False, practiceGuided = True, practiceMinimal = True\<rparr>,
       route_path = ''/practice/minimal/theme'', localStorage = store_of []\<rparr>)) PracticeGuided = True"
proof -
  let ?st = "\<lparr>isSidenavOpen = False, isSidenavOpen_seen = False,
       sections = \<lparr>demos = False, practiceGuided = True, practiceMinimal = True\<rparr>,
       route_path = ''/practice/minimal/theme'', localStorage = store_of []\<rparr>"
  have c: "getSectionForRoute ''/practice/minimal/theme'' = Some PracticeMinimal"
    "getSectionForRoute ''/display-name'' = Some Demos"
    by (simp_all add: getSectionForRoute_def startsWith_def)
  from onRouteChange_sections [of "''/practice/minimal/theme''" "''/display-name''" ?st Demos]
    onRouteChange_sections [of "''/practice/minimal/theme''" "''/display-name''" ?st PracticeMinimal]
    onRouteChange_sections [of "''/practice/minimal/theme''" "''/display-name''" ?st PracticeGuided]
  show ?thesis by (simp add: c)
qed

section \<open>Clicking a section button\<close>

text \<open>
  Claim C4. A click on the button of the active section changes nothing, however often
  it is repeated; a click on another section's button flips that section's flag and
  leaves the other flags as they are.
\<close>

theorem toggleSection_spec:
  "(Some s = activeSection st \<longrightarrow>
      toggleSection s st = st \<and> (toggleSection s ^^ n) st = st) \<and>
   (Some s \<noteq> activeSection st \<longrightarrow>
      section_get (sections (toggleSection s st)) t =
        (if t = s then \<not> section_get (sections st) s else section_get (sections st) t))"
  by (simp add: toggleSection_def funpow_fixed section_get_set)

theorem toggleSection_spec_witness:
  "toggleSection PracticeGuided (initialize (store_of []) ''/practice/guided/theme'') =
     initialize (store_of []) ''/practice/guided/theme'' \<and>
   (toggleSection PracticeGuided ^^ 5) (initialize (store_of []) ''/practice/guided/theme'') =
     initialize (store_of []) ''/practice/guided/theme'' \<and>
   section_get (sections (initialize (store_of []) ''/practice/guided/theme'')) PracticeGuided \<and>
   section_get (sections (toggleSection Demos (initialize (store_of []) ''/practice/guided/theme''))) Demos \<and>
   section_get (sections (toggleSection Demos (initialize (store_of []) ''/practice/guided/theme''))) PracticeGuided \<and>
   \<not> section_get (sections (toggleSection Demos (initialize (store_of []) ''/practice/guided/theme''))) PracticeMinimal"
proof -
  let ?st = "initialize (store_of []) ''/practice/guided/theme''"
  have act: "activeSection ?st = Some PracticeGuided"
    by (simp add: app_defs)
  have secs: "sections ?st = \<lparr>demos = False, practiceGuided = True, practiceMinimal = False\<rparr>"
    by (simp add: app_defs)
  from toggleSection_spec [of PracticeGuided ?st 5 Demos]
    toggleSection_spec [of Demos ?st 0 Demos]
    toggleSection_spec [of Demos ?st 0 PracticeGuided]
    toggleSection_spec [of Demos ?st 0 PracticeMinimal]
  show ?thesis by (simp add: act secs)
qed

section \<open>Clicking the menu button\<close>

text \<open>
  Claim C5 says that two calls of \<open>toggleSidenav\<close> restore the open flag, which
  holds, and that after each call the item stored under the side navigation's key is the
  string of the new flag. The call itself stores nothing, since the watcher waits for
  the flush: after start-up with an empty storage and one call, the flag is false and
  nothing is stored; with \<^verbatim>\<open>'true'\<close> stored, the flag is false and
  \<^verbatim>\<open>'true'\<close> is still stored. After two calls and then the flush, the flag is
  true as before, no call of \<^verbatim>\<open>setItem\<close> was made, and nothing is stored.
\<close>

theorem toggleSidenav_store_counterexample:
  "isSidenavOpen (toggleSidenav (initialize (store_of []) ''/'')) = False \<and>
   getItem SIDENAV_OPEN_KEY (localStorage (toggleSidenav (initialize (store_of []) ''/''))) = None \<and>
   getItem SIDENAV_OPEN_KEY (localStorage (toggleSidenav (initialize (store_of []) ''/''))) \<noteq>
     Some (String_of_bool (isSidenavOpen (toggleSidenav (initialize (store_of []) ''/'')))) \<and>
   isSidenavOpen (toggleSidenav (initialize (store_of [(SIDENAV_OPEN_KEY, ''true'')]) ''/'')) = False \<and>
   getItem SIDENAV_OPEN_KEY
     (localStorage (toggleSidenav (initialize (store_of [(SIDENAV_OPEN_KEY, ''true'')]) ''/''))) =
     Some ''true'' \<and>
   isSidenavOpen (flush (toggleSidenav (toggleSidenav (initialize (store_of []) ''/'')))) = True \<and>
   setItem_calls
     (localStorage (flush (toggleSidenav (toggleSidenav (initialize (store_of []) ''/''))))) = [] \<and>
   getItem SIDENAV_OPEN_KEY
     (localStorage (flush (toggleSidenav (toggleSidenav (initialize (store_of []) ''/''))))) \<noteq>
     Some (String_of_bool
       (isSidenavOpen (flush (toggleSidenav (toggleSidenav (initialize (store_of []) ''/''))))))"
proof -
  let ?e = "initialize (store_of []) ''/''"
  let ?t = "initialize (store_of [(SIDENAV_OPEN_KEY, ''true'')]) ''/''"
  have e: "isSidenavOpen ?e = True" "localStorage ?e = store_of []"
    by (simp_all add: isSidenavOpen_initialize localStorage_initialize getItem_def store_of_def)
  have t: "isSidenavOpen ?t = True"
    "localStorage ?t = store_of [(SIDENAV_OPEN_KEY, ''true'')]"
    by (simp_all add: isSidenavOpen_initialize localStorage_initialize getItem_def store_of_def)
  have one: "isSidenavOpen (toggleSidenav ?e) = False"
    "getItem SIDENAV_OPEN_KEY (localStorage (toggleSidenav ?e)) = None"
    by (simp_all add: isSidenavOpen_toggleSidenav localStorage_toggleSidenav e)
       (simp add: getItem_def store_of_def)
  have stale: "isSidenavOpen (toggleSidenav ?t) = False"
    "getItem SIDENAV_OPEN_KEY (localStorage (toggleSidenav ?t)) = Some ''true''"
    by (simp_all add: isSidenavOpen_toggleSidenav localStorage_toggleSidenav t)
       (simp add: getItem_def store_of_def)
  have seen: "isSidenavOpen_seen ?e = True"
    by (simp add: initialize_def isSidenavOpen_seen_flush isSidenavOpen_onMounted
          script_setup_def getItem_def store_of_def)
  have two: "isSidenavOpen (flush (toggleSidenav (toggleSidenav ?e))) = True"
    "localStorage (flush (toggleSidenav (toggleSidenav ?e))) = store_of []"
    by (simp_all add: toggleSidenav_twice isSidenavOpen_flush localStorage_flush e seen)
  have none: "getItem SIDENAV_OPEN_KEY (store_of []) = None"
    "setItem_calls (store_of []) = []"
    by (simp_all add: getItem_def store_of_def)
  from one stale two none show ?thesis
    by (simp add: String_of_bool_def)
qed

text \<open>
  Claim C5, amended. Two calls of \<open>toggleSidenav\<close> in a row restore the open flag.
  A call stores nothing by itself; the watcher stores at the flush that follows. When
  the watcher has seen the current flag before the call, as it has after start-up and
  after every flush, the call followed by the flush makes exactly one call of
  \<^verbatim>\<open>setItem\<close>, and the item then stored under the side navigation's key is the
  string of the new flag. Two calls with no flush between them leave the storage as it
  was, also after the flush.
\<close>

theorem toggleSidenav_then_flush:
  "isSidenavOpen (toggleSidenav st) = (\<not> isSidenavOpen st) \<and>
   isSidenavOpen (toggleSidenav (toggleSidenav st)) = isSidenavOpen st \<and>
   localStorage (toggleSidenav st) = localStorage st \<and>
   isSidenavOpen (flush st) = isSidenavOpen st \<and>
   isSidenavOpen_seen (flush st) = isSidenavOpen (flush st) \<and>
   isSidenavOpen_seen (initialize store path) = isSidenavOpen (initialize store path) \<and>
   (isSidenavOpen_seen st = isSidenavOpen st \<longrightarrow>
      getItem SIDENAV_OPEN_KEY (localStorage (flush (toggleSidenav st))) =
        Some (String_of_bool (isSidenavOpen (flush (toggleSidenav st)))) \<and>
      setItem_calls (localStorage (flush (toggleSidenav st))) =
        setItem_calls (localStorage st) @
          [(SIDENAV_OPEN_KEY, String_of_bool (\<not> isSidenavOpen st))] \<and>
      localStorage (flush (toggleSidenav (toggleSidenav st))) = localStorage st)"
proof -
  have a: "isSidenavOpen_seen (initialize store path) = isSidenavOpen (initialize store path)"
    by (simp add: initialize_def isSidenavOpen_seen_flush isSidenavOpen_flush)
  have b: "localStorage (flush (toggleSidenav st)) =
      setItem SIDENAV_OPEN_KEY (String_of_bool (\<not> isSidenavOpen st)) (localStorage st)"
    if "isSidenavOpen_seen st = isSidenavOpen st"
    using that
    by (simp add: localStorage_flush isSidenavOpen_toggleSidenav
          isSidenavOpen_seen_toggleSidenav localStorage_toggleSidenav)
  have c: "setItem_calls (setItem k v s) = setItem_calls s @ [(k, v)]" for k v s
    by (simp add: setItem_def)
  have d: "localStorage (flush (toggleSidenav (toggleSidenav st))) = localStorage st"
    if "isSidenavOpen_seen st = isSidenavOpen st"
    using that by (simp add: toggleSidenav_twice localStorage_flush)
  show ?thesis
    by (simp add: isSidenavOpen_toggleSidenav localStorage_toggleSidenav isSidenavOpen_flush
          isSidenavOpen_seen_flush a b c d getItem_setItem)
qed

theorem toggleSidenav_then_flush_witness:
  "isSidenavOpen (initialize (store_of [(SIDENAV_OPEN_KEY, ''true'')]) ''/theme'') \<and>
   isSidenavOpen_seen (initialize (store_of [(SIDENAV_OPEN_KEY, ''true'')]) ''/theme'') \<and>
   \<not> isSidenavOpen
     (flush (toggleSidenav (initialize (store_of [(SIDENAV_OPEN_KEY, ''true'')]) ''/theme''))) \<and>
   getItem SIDENAV_OPEN_KEY (localStorage
     (flush (toggleSidenav (initialize (store_of [(SIDENAV_OPEN_KEY, ''true'')]) ''/theme'')))) =
     Some ''false'' \<and>
   setItem_calls (localStorage
     (flush (toggleSidenav (initialize (store_of [(SIDENAV_OPEN_KEY, ''true'')]) ''/theme'')))) =
     [(SIDENAV_OPEN_KEY, ''false'')] \<and>
   getItem SIDENAV_OPEN_KEY (localStorage
     (flush (toggleSidenav (toggleSidenav
        (initialize (store_of [(SIDENAV_OPEN_KEY, ''true'')]) ''/theme''))))) = Some ''true'' \<and>
   setItem_calls (localStorage
     (flush (toggleSidenav (toggleSidenav
        (initialize (store_of [(SIDENAV_OPEN_KEY, ''true'')]) ''/theme''))))) = []"
proof -
  let ?st = "initialize (store_of [(SIDENAV_OPEN_KEY, ''true'')]) ''/theme''"
  have o: "isSidenavOpen ?st = True"
    by (simp add: isSidenavOpen_initialize getItem_def store_of_def)
  have l: "localStorage ?st = store_of [(SIDENAV_OPEN_KEY, ''true'')]"
    by (simp add: localStorage_initialize getItem_def store_of_def)
  have v: "getItem SIDENAV_OPEN_KEY (store_of [(SIDENAV_OPEN_KEY, ''true'')]) = Some ''true''"
    "setItem_calls (store_of [(SIDENAV_OPEN_KEY, ''true'')]) = []"
    by (simp_all add: getItem_def store_of_def)
  from toggleSidenav_then_flush [of ?st "store_of [(SIDENAV_OPEN_KEY, ''true'')]" "''/theme''"]
    o l v
  show ?thesis
    by (simp add: String_of_bool_def isSidenavOpen_flush isSidenavOpen_toggleSidenav)
qed

section \<open>Start-up\<close>

text \<open>
  Claim C6. At start-up the open flag is read by comparing the stored string with
  \<^verbatim>\<open>'true'\<close>: a stored \<^verbatim>\<open>'true'\<close> gives true, a stored
  \<^verbatim>\<open>'false'\<close> gives false, no stored item keeps the default true, and any
  other stored string, such as \<^verbatim>\<open>'banana'\<close>, gives false. Start-up always
  returns a state: the model has no error outcome because the script raises none.
\<close>

theorem initialize_isSidenavOpen:
  "isSidenavOpen (initialize store path) =
     (case getItem SIDENAV_OPEN_KEY store of None \<Rightarrow> True | Some v \<Rightarrow> v = ''true'') \<and>
   isSidenavOpen (initialize (store_of [(SIDENAV_OPEN_KEY, ''true'')]) path) = True \<and>
   isSidenavOpen (initialize (store_of [(SIDENAV_OPEN_KEY, ''false'')]) path) = False \<and>
   isSidenavOpen (initialize (store_of []) path) = True \<and>
   isSidenavOpen (initialize (store_of [(SIDENAV_OPEN_KEY, ''banana'')]) path) = False"
proof -
  have gen: "\<And>store. isSidenavOpen (initialize store path) =
     (case getItem SIDENAV_OPEN_KEY store of None \<Rightarrow> True | Some v \<Rightarrow> v = ''true'')"
    by (rule isSidenavOpen_initialize)
  show ?thesis
    by (simp add: gen) (simp add: getItem_def store_of_def)
qed

theorem initialize_isSidenavOpen_witness:
  "isSidenavOpen (initialize (store_of [(''demo.theme'', ''dark''), (SIDENAV_OPEN_KEY, ''True'')])
      ''/devtools'') = False \<and>
   isSidenavOpen (initialize (store_of [(''demo.theme'', ''dark'')]) ''/devtools'') = True"
  using initialize_isSidenavOpen
      [of "store_of [(''demo.theme'', ''dark''), (SIDENAV_OPEN_KEY, ''True'')]" "''/devtools''"]
    initialize_isSidenavOpen [of "store_of [(''demo.theme'', ''dark'')]" "''/devtools''"]
  by (simp add: getItem_def store_of_def SIDENAV_OPEN_KEY_def)

text \<open>
  Claim C7 says that start-up never writes to the storage. With \<^verbatim>\<open>'banana'\<close>
  stored under the key, the mounted hook sets the open flag from its default true to
  false, the watcher of the flag runs at the flush that follows, and the stored item becomes
  \<^verbatim>\<open>'false'\<close>.
\<close>

theorem initialize_write_back_counterexample:
  "localStorage (initialize (store_of [(SIDENAV_OPEN_KEY, ''banana'')]) ''/'') \<noteq>
     store_of [(SIDENAV_OPEN_KEY, ''banana'')] \<and>
   getItem SIDENAV_OPEN_KEY (store_of [(SIDENAV_OPEN_KEY, ''banana'')]) = Some ''banana'' \<and>
   getItem SIDENAV_OPEN_KEY
     (localStorage (initialize (store_of [(SIDENAV_OPEN_KEY, ''banana'')]) ''/'')) = Some ''false'' \<and>
   setItem_calls (localStorage (initialize (store_of [(SIDENAV_OPEN_KEY, ''banana'')]) ''/'')) =
     [(SIDENAV_OPEN_KEY, ''false'')]"
proof -
  let ?store = "store_of [(SIDENAV_OPEN_KEY, ''banana'')]"
  have a: "getItem SIDENAV_OPEN_KEY ?store = Some ''banana''"
    by (simp add: getItem_def store_of_def)
  have l: "localStorage (initialize ?store ''/'') = setItem SIDENAV_OPEN_KEY ''false'' ?store"
    by (simp add: localStorage_initialize a)
  have b: "getItem SIDENAV_OPEN_KEY (localStorage (initialize ?store ''/'')) = Some ''false''"
    by (simp add: l getItem_setItem)
  have c: "setItem_calls (localStorage (initialize ?store ''/'')) = [(SIDENAV_OPEN_KEY, ''false'')]"
    by (simp add: l) (simp add: setItem_def store_of_def)
  have d: "localStorage (initialize ?store ''/'') \<noteq> ?store"
  proof
    assume "localStorage (initialize ?store ''/'') = ?store"
    with b have "getItem SIDENAV_OPEN_KEY ?store = Some ''false''" by simp
    with a show False by simp
  qed
  from a b c d show ?thesis by simp
qed

text \<open>
  Claim C7, amended. Start-up leaves the storage untouched when nothing is stored under
  the key or \<^verbatim>\<open>'true'\<close> is stored. When any other string is stored, the open
  flag changes from its default and start-up makes one call of \<^verbatim>\<open>setItem\<close>,
  storing \<^verbatim>\<open>'false'\<close> under the key (which replaces a stored string other
  than \<^verbatim>\<open>'false'\<close>).
\<close>

theorem initialize_localStorage:
  "localStorage (initialize store path) =
     (case getItem SIDENAV_OPEN_KEY store of
        None \<Rightarrow> store
      | Some v \<Rightarrow> if v = ''true'' then store else setItem SIDENAV_OPEN_KEY ''false'' store)"
  by (rule localStorage_initialize)

theorem initialize_localStorage_witness:
  "localStorage (initialize (store_of []) ''/theme'') = store_of [] \<and>
   localStorage (initialize (store_of [(SIDENAV_OPEN_KEY, ''true'')]) ''/theme'') =
     store_of [(SIDENAV_OPEN_KEY, ''true'')] \<and>
   localStorage (initialize (store_of [(SIDENAV_OPEN_KEY, ''false'')]) ''/theme'') =
     setItem SIDENAV_OPEN_KEY ''false'' (store_of [(SIDENAV_OPEN_KEY, ''false'')]) \<and>
   setItem_calls (localStorage (initialize (store_of [(SIDENAV_OPEN_KEY, ''false'')]) ''/theme'')) =
     [(SIDENAV_OPEN_KEY, ''false'')]"
  using initialize_localStorage [of "store_of []" "''/theme''"]
    initialize_localStorage [of "store_of [(SIDENAV_OPEN_KEY, ''true'')]" "''/theme''"]
    initialize_localStorage [of "store_of [(SIDENAV_OPEN_KEY, ''false'')]" "''/theme''"]
  by (simp add: getItem_def) (simp add: store_of_def setItem_def)

section \<open>Navigation inside a section\<close>

text \<open>
  Claim C8. In a state reached by a run, a navigation from the current path to a path of
  the same section (or from a path of no section to another such path) leaves all three
  flags as they were: the section's flag is assigned true and was true already.
\<close>

theorem onRouteChange_same_section:
  assumes "st = run (initialize store path) es"
    and "getSectionForRoute (route_path st) = getSectionForRoute newPath"
  shows "sections (onRouteChange (route_path st) newPath st) = sections st"
proof -
  from assms(1) have "active_open st"
    by (simp add: active_open_run active_open_initialize)
  then have "case getSectionForRoute (route_path st) of
               None \<Rightarrow> True | Some s \<Rightarrow> section_get (sections st) s"
    by (simp add: active_open_def activeSection_def)
  with assms(2) show ?thesis
    by (simp add: onRouteChange_def route_path_watcher_same)
qed

theorem onRouteChange_same_section_witness:
  "route_path (run (initialize (store_of []) ''/theme'') [ToggleGroup PracticeGuided]) = ''/theme'' \<and>
   getSectionForRoute ''/theme'' = getSectionForRoute ''/devtools'' \<and>
   sections (run (initialize (store_of []) ''/theme'') [ToggleGroup PracticeGuided]) =
     \<lparr>demos = True, practiceGuided = True, practiceMinimal = False\<rparr> \<and>
   sections (onRouteChange ''/theme'' ''/devtools''
       (run (initialize (store_of []) ''/theme'') [ToggleGroup PracticeGuided])) =
     \<lparr>demos = True, practiceGuided = True, practiceMinimal = False\<rparr>"
proof -
  let ?st = "run (initialize (store_of []) ''/theme'') [ToggleGroup PracticeGuided]"
  have r: "route_path ?st = ''/theme''"
    by (simp add: app_defs)
  have c: "getSectionForRoute ''/theme'' = getSectionForRoute ''/devtools''"
    by (simp add: getSectionForRoute_def startsWith_def)
  have s: "sections ?st = \<lparr>demos = True, practiceGuided = True, practiceMinimal = False\<rparr>"
    by (simp add: app_defs)
  from c r have h: "getSectionForRoute (route_path ?st) = getSectionForRoute ''/devtools''"
    by simp
  from onRouteChange_same_section [OF refl h] r s c show ?thesis
    by simp
qed

section \<open>The first run of the route watcher\<close>

text \<open>
  Claim C9. The immediate run of the route watcher has no old path and treats it as a
  path of no section: it sets no flag to false, and only the flag of the current path's
  section to true. So right after start-up a flag is true exactly if it is the flag of
  the section of the current path.
\<close>

theorem initial_reconciliation:
  "route_path_watcher path None secs =
     (case getSectionForRoute path of None \<Rightarrow> secs | Some ns \<Rightarrow> section_set ns True secs) \<and>
   section_get (route_path_watcher path None secs) g =
     (section_get secs g \<or> getSectionForRoute path = Some g) \<and>
   section_get (sections (initialize store path)) g = (getSectionForRoute path = Some g)"
proof -
  have a: "route_path_watcher path None secs =
     (case getSectionForRoute path of None \<Rightarrow> secs | Some ns \<Rightarrow> section_set ns True secs)"
    by (rule route_path_watcher_None)
  have b: "section_get (route_path_watcher path None secs) g =
     (section_get secs g \<or> getSectionForRoute path = Some g)"
    by (auto simp: a section_get_set split: option.splits)
  from a b sections_initialize [of store path g] show ?thesis by simp
qed

theorem initial_reconciliation_witness:
  "sections (initialize (store_of []) ''/practice/minimal/theme'') =
     \<lparr>demos = False, practiceGuided = False, practiceMinimal = True\<rparr> \<and>
   sections (initialize (store_of [(SIDENAV_OPEN_KEY, ''false'')]) ''/'') =
     \<lparr>demos = False, practiceGuided = False, practiceMinimal = False\<rparr>"
proof -
  have c: "getSectionForRoute ''/practice/minimal/theme'' = Some PracticeMinimal"
    "getSectionForRoute ''/'' = None"
    by (simp_all add: getSectionForRoute_def startsWith_def)
  let ?a = "sections (initialize (store_of []) ''/practice/minimal/theme'')"
  let ?b = "sections (initialize (store_of [(SIDENAV_OPEN_KEY, ''false'')]) ''/'')"
  from initial_reconciliation [of "''/practice/minimal/theme''" _ Demos "store_of []"]
    initial_reconciliation [of "''/practice/minimal/theme''" _ PracticeGuided "store_of []"]
    initial_reconciliation [of "''/practice/minimal/theme''" _ PracticeMinimal "store_of []"]
  have "\<not> demos ?a \<and> \<not> practiceGuided ?a \<and> practiceMinimal ?a"
    by (simp add: c)
  moreover
  from initial_reconciliation [of "''/''" _ Demos "store_of [(SIDENAV_OPEN_KEY, ''false'')]"]
    initial_reconciliation [of "''/''" _ PracticeGuided "store_of [(SIDENAV_OPEN_KEY, ''false'')]"]
    initial_reconciliation [of "''/''" _ PracticeMinimal "store_of [(SIDENAV_OPEN_KEY, ''false'')]"]
  have "\<not> demos ?b \<and> \<not> practiceGuided ?b \<and> \<not> practiceMinimal ?b"
    by (simp add: c)
  ultimately show ?thesis
    by (cases ?a; cases ?b) simp
qed

section \<open>What each operation leaves alone\<close>

text \<open>
  Claim C10. A click on the menu button changes no section flag (and not the path), and
  neither does the flush that follows it; a click on a section button and a navigation change neither the open flag nor the
  storage, and make no call of \<^verbatim>\<open>setItem\<close>.
\<close>

theorem operations_frame:
  "sections (toggleSidenav st) = sections st \<and>
   route_path (toggleSidenav st) = route_path st \<and>
   sections (flush st) = sections st \<and>
   route_path (flush st) = route_path st \<and>
   isSidenavOpen (toggleSection s st) = isSidenavOpen st \<and>
   localStorage (toggleSection s st) = localStorage st \<and>
   isSidenavOpen (onRouteChange oldPath newPath st) = isSidenavOpen st \<and>
   localStorage (onRouteChange oldPath newPath st) = localStorage st"
  by (simp add: sections_toggleSidenav route_path_toggleSidenav sections_flush
        route_path_flush toggleSection_def onRouteChange_def)

theorem operations_frame_witness:
  "sections (toggleSidenav (initialize (store_of [(SIDENAV_OPEN_KEY, ''false'')]) ''/theme'')) =
     \<lparr>demos = True, practiceGuided = False, practiceMinimal = False\<rparr> \<and>
   isSidenavOpen (toggleSection PracticeGuided
     (initialize (store_of [(SIDENAV_OPEN_KEY, ''false'')]) ''/theme'')) = False \<and>
   setItem_calls (localStorage (toggleSection PracticeGuided
     (initialize (store_of [(SIDENAV_OPEN_KEY, ''false'')]) ''/theme''))) =
     [(SIDENAV_OPEN_KEY, ''false'')] \<and>
   isSidenavOpen (onRouteChange ''/theme'' ''/''
     (initialize (store_of [(SIDENAV_OPEN_KEY, ''false'')]) ''/theme'')) = False \<and>
   setItem_calls (localStorage (onRouteChange ''/theme'' ''/''
     (initialize (store_of [(SIDENAV_OPEN_KEY, ''false'')]) ''/theme''))) =
     [(SIDENAV_OPEN_KEY, ''false'')]"
proof -
  let ?st = "initialize (store_of [(SIDENAV_OPEN_KEY, ''false'')]) ''/theme''"
  have e: "sections ?st = \<lparr>demos = True, practiceGuided = False, practiceMinimal = False\<rparr>"
    "isSidenavOpen ?st = False"
    "setItem_calls (localStorage ?st) = [(SIDENAV_OPEN_KEY, ''false'')]"
    by (simp_all add: app_defs)
  from operations_frame [of ?st PracticeGuided "''/theme''" "''/''"] e
  show ?thesis by simp
qed

end
